theory Spec2Isabelle
  imports Main "HOL-Library.Signed_Division"
begin

section \<open>log\_utils: helpers\<close>

text \<open>
  The logging header \<^verbatim>\<open>log_utils.h\<close> (second part of
  \<^verbatim>\<open>src/include/log_utils/log_example.h\<close>): the level enumeration, the basename
  and timestamp helpers, \<^verbatim>\<open>FileLogger\<close>, the \<^verbatim>\<open>LogManager\<close> singleton and
  \<^verbatim>\<open>writeLog\<close>.
\<close>

subsection \<open>Log levels\<close>

text \<open>\<^verbatim>\<open>enum class LogLevel { DEBUG = 0, INFO = 1, WARN = 2, ERROR = 3 }\<close>\<close>

datatype LogLevel = DEBUG | INFO | WARN | ERROR

fun level_value :: "LogLevel \<Rightarrow> int" where
  "level_value DEBUG = 0"
| "level_value INFO = 1"
| "level_value WARN = 2"
| "level_value ERROR = 3"

text \<open>The built-in \<^verbatim>\<open><\<close> of the scoped enumeration compares the underlying values.\<close>

definition level_less :: "LogLevel \<Rightarrow> LogLevel \<Rightarrow> bool" where
  "level_less a b = (level_value a < level_value b)"

text \<open>
  \<^verbatim>\<open>logLevelToString\<close>. The \<^verbatim>\<open>default: return "UNKNOWN"\<close> branch of the switch is
  taken by no enumerator, so it has no equation here.
\<close>

fun logLevelToString :: "LogLevel \<Rightarrow> string" where
  "logLevelToString DEBUG = ''DEBUG''"
| "logLevelToString INFO = ''INFO''"
| "logLevelToString WARN = ''WARN''"
| "logLevelToString ERROR = ''ERROR''"

subsection \<open>Basename of a path\<close>

definition slash :: char where
  "slash = CHR ''/''"

definition backslash :: char where
  "backslash = CHR 0x5C"

definition newline :: char where
  "newline = CHR 0x0A"

text \<open>
  \<^verbatim>\<open>std::string::find_last_of(chars)\<close>: the greatest position holding one of the
  characters, \<^verbatim>\<open>npos\<close> (here \<open>None\<close>) when there is none.
\<close>

fun find_last_of :: "string \<Rightarrow> string \<Rightarrow> nat option" where
  "find_last_of [] cs = None"
| "find_last_of (x # xs) cs =
     (case find_last_of xs cs of
        Some i \<Rightarrow> Some (Suc i)
      | None \<Rightarrow> (if x \<in> set cs then Some 0 else None))"

text \<open>
  \<^verbatim>\<open>size_t pos = path.find_last_of("/\\");
  return (pos == std::string::npos) ? path : path.substr(pos + 1);\<close>
\<close>

definition getFileName :: "string \<Rightarrow> string" where
  "getFileName path =
     (case find_last_of path [slash, backslash] of
        None \<Rightarrow> path
      | Some pos \<Rightarrow> drop (pos + 1) path)"

subsection \<open>Decimal output and field width\<close>

text \<open>
  \<^verbatim>\<open>operator<<\<close> on an integer writes its decimal digits, with a leading minus sign
  for a negative value.
\<close>

definition digit_char :: "nat \<Rightarrow> char" where
  "digit_char d = ''0123456789'' ! (d mod 10)"

fun show_nat :: "nat \<Rightarrow> string" where
  "show_nat n = (if n < 10 then [digit_char n] else show_nat (n div 10) @ [digit_char (n mod 10)])"

declare show_nat.simps [simp del]

definition show_int :: "int \<Rightarrow> string" where
  "show_int i = (if i < 0 then CHR ''-'' # show_nat (nat (- i)) else show_nat (nat i))"

text \<open>
  \<^verbatim>\<open>std::setfill(c) << std::setw(w)\<close> before one output: the text is right-adjusted
  (the stream's default), so the fill characters come first, sign included in the
  text that follows them; a text of \<open>w\<close> or more characters is written unchanged.
\<close>

definition setw_setfill :: "nat \<Rightarrow> char \<Rightarrow> string \<Rightarrow> string" where
  "setw_setfill w c s = replicate (w - length s) c @ s"

subsection \<open>Timestamp\<close>

text \<open>The fields of \<^verbatim>\<open>struct tm\<close> that the format string reads.\<close>

record tm =
  tm_sec :: int
  tm_min :: int
  tm_hour :: int
  tm_mday :: int
  tm_mon :: int
  tm_year :: int

text \<open>
  The conversions of \<^verbatim>\<open>"%Y-%m-%d %H:%M:%S"\<close>: \<^verbatim>\<open>%Y\<close> is the year
  \<open>tm_year + 1900\<close> as a decimal number, \<^verbatim>\<open>%m\<close> the month \<open>tm_mon + 1\<close>, and
  \<^verbatim>\<open>%m %d %H %M %S\<close> are decimal numbers of two digits.
\<close>

definition two_digits :: "int \<Rightarrow> string" where
  "two_digits n = setw_setfill 2 CHR ''0'' (show_int n)"

definition put_time :: "tm \<Rightarrow> string" where
  "put_time t =
     show_int (tm_year t + 1900) @ ''-'' @ two_digits (tm_mon t + 1) @ ''-'' @ two_digits (tm_mday t)
     @ '' '' @ two_digits (tm_hour t) @ '':'' @ two_digits (tm_min t) @ '':'' @ two_digits (tm_sec t)"

text \<open>
  A reading of \<^verbatim>\<open>std::chrono::system_clock\<close> is a signed count of nanoseconds since
  the epoch. \<^verbatim>\<open>to_time_t\<close> and \<^verbatim>\<open>duration_cast\<close> divide the count rounding towards
  zero, and \<^verbatim>\<open>%\<close> on a duration is the remainder of that division (it has the sign of
  the count).
\<close>

definition to_time_t :: "int \<Rightarrow> int" where
  "to_time_t now = now sdiv 1000000000"

definition duration_cast_milliseconds :: "int \<Rightarrow> int" where
  "duration_cast_milliseconds d = d sdiv 1000000"

section \<open>The process and its environment\<close>

text \<open>
  What the code reads from and writes to outside its own objects:
  \<^item> \<open>environ\<close>: the environment variables (\<^verbatim>\<open>std::getenv\<close>, \<open>None\<close> for a null result);
  \<^item> \<open>can_open\<close>: whether opening a path in append mode (creating the file when it is
    absent) succeeds at the moment the program tries it;
  \<^item> \<open>inode\<close>: the file that a path leads to at the moment it is opened, the one that
    exists there or the one that the open creates; two paths may lead to one file
    (\<^verbatim>\<open>dir/x\<close> and \<^verbatim>\<open>dir/./x\<close>, links);
  \<^item> \<open>files\<close>: the bytes of each file, by file (a file that is new is empty);
  \<^item> \<open>cerr\<close>: the text written to \<^verbatim>\<open>std::cerr\<close> so far;
  \<^item> \<open>shell\<close>: the commands handed to \<^verbatim>\<open>system()\<close> so far; what a command does to
    the directory tree shows in \<open>can_open\<close>;
  \<^item> \<open>clock\<close>, \<open>reads\<close>: the successive readings of \<^verbatim>\<open>system_clock::now()\<close> and
    how many were taken, so that two calls may see two instants;
  \<^item> \<open>local_time\<close>: \<^verbatim>\<open>std::localtime\<close>, the time zone of the process;
  \<^item> \<open>constructed\<close>: how many \<^verbatim>\<open>FileLogger\<close> objects were constructed so far. Each
    object takes the current count as its identity, so two objects are the same instance
    exactly when their identities are equal, whether or not the allocator reuses an address.
  A write to an open stream is taken to succeed.
\<close>

record world =
  environ :: "string \<rightharpoonup> string"
  can_open :: "string \<Rightarrow> bool"
  inode :: "string \<Rightarrow> nat"
  files :: "nat \<Rightarrow> string"
  cerr :: string
  shell :: "string list"
  clock :: "nat \<Rightarrow> int"
  reads :: nat
  local_time :: "int \<Rightarrow> tm"
  constructed :: nat

definition system_clock_now :: "world \<Rightarrow> int \<times> world" where
  "system_clock_now w = (clock w (reads w), w\<lparr>reads := Suc (reads w)\<rparr>)"

definition system :: "string \<Rightarrow> world \<Rightarrow> world" where
  "system cmd w = w\<lparr>shell := shell w @ [cmd]\<rparr>"

text \<open>A write through a stream in append mode adds the bytes at the end of the stream's file.\<close>

definition append_file :: "nat \<Rightarrow> string \<Rightarrow> world \<Rightarrow> world" where
  "append_file node bytes w = w\<lparr>files := (files w)(node := files w node @ bytes)\<rparr>"

text \<open>
  \<^verbatim>\<open>getCurrentTimestamp\<close>:
  \<^verbatim>\<open>
  auto now = std::chrono::system_clock::now();
  auto time_t = std::chrono::system_clock::to_time_t(now);
  auto ms = std::chrono::duration_cast<std::chrono::milliseconds>(now.time_since_epoch()) % 1000;
  ss << std::put_time(std::localtime(&time_t), "%Y-%m-%d %H:%M:%S");
  ss << "." << std::setfill('0') << std::setw(3) << ms.count();
  \<close>
\<close>

definition getCurrentTimestamp :: "world \<Rightarrow> string \<times> world" where
  "getCurrentTimestamp w =
     (let (now, w1) = system_clock_now w;
          time_t = to_time_t now;
          ms = duration_cast_milliseconds now smod 1000
      in (put_time (local_time w1 time_t) @ ''.'' @ setw_setfill 3 CHR ''0'' (show_int ms), w1))"

section \<open>FileLogger\<close>

text \<open>
  The members of \<^verbatim>\<open>FileLogger\<close>, each named \<open>m_x\<close> for the member \<^verbatim>\<open>x_\<close> of the class.
  Of the stream \<^verbatim>\<open>log_file_\<close> the model keeps whether it is open (\<open>log_file_is_open\<close>,
  what \<^verbatim>\<open>is_open()\<close> returns) and the file it was opened on (\<open>log_file_node\<close>, the file
  that \<open>m_log_file_path\<close> led to when the constructor opened it; it is read only while the
  stream is open). The stream keeps that file whatever happens to the path later, and nothing
  but the destructor closes it.
  \<open>object_id\<close> is the identity of the object. The mutex has no sequential effect.
\<close>

record FileLogger =
  m_log_file_path :: string
  log_file_is_open :: bool
  log_file_node :: nat
  m_min_level :: LogLevel
  object_id :: nat

text \<open>
  The constructor: \<^verbatim>\<open>log_file_.open(log_file_path_, std::ios::app)\<close>, and a line on
  \<^verbatim>\<open>std::cerr\<close> when the stream is not open afterwards.
\<close>

definition FileLogger_new :: "string \<Rightarrow> LogLevel \<Rightarrow> world \<Rightarrow> FileLogger \<times> world" where
  "FileLogger_new file_path min_level w =
     (let this = \<lparr>m_log_file_path = file_path, log_file_is_open = can_open w file_path,
                   log_file_node = inode w file_path, m_min_level = min_level,
                   object_id = constructed w\<rparr>;
          w1 = w\<lparr>constructed := Suc (constructed w)\<rparr>
      in if \<not> log_file_is_open this
         then (this, w1\<lparr>cerr := cerr w1 @ ''Error: Cannot open log file: '' @ file_path @ [newline]\<rparr>)
         else (this, w1))"

definition isOpen :: "FileLogger \<Rightarrow> bool" where
  "isOpen this = log_file_is_open this"

definition getFilePath :: "FileLogger \<Rightarrow> string" where
  "getFilePath this = m_log_file_path this"

text \<open>
  \<^verbatim>\<open>FileLogger::log\<close>: the early return, then one formatted record, \<^verbatim>\<open>std::endl\<close>
  (a newline and a flush) and \<^verbatim>\<open>flush()\<close>.
\<close>

definition log :: "FileLogger \<Rightarrow> LogLevel \<Rightarrow> string \<Rightarrow> string \<Rightarrow> int \<Rightarrow> string \<Rightarrow> world \<Rightarrow> world" where
  "log this level module file line message w =
     (if level_less level (m_min_level this) \<or> \<not> log_file_is_open this then w
      else
        let (timestamp, w1) = getCurrentTimestamp w
        in append_file (log_file_node this)
             (''['' @ timestamp @ ''] '' @ ''['' @ logLevelToString level @ ''] ''
              @ ''['' @ module @ ''] '' @ getFileName file @ '':'' @ show_int line @ '' - ''
              @ message @ [newline]) w1)"

section \<open>LogManager\<close>

text \<open>
  The members of the singleton. A \<^verbatim>\<open>std::shared_ptr<FileLogger>\<close> is an optional
  logger, \<open>None\<close> for the null pointer; \<open>m_loggers\<close> is the \<^verbatim>\<open>std::map\<close> from module
  names to loggers.
\<close>

record LogManager =
  m_loggers :: "string \<rightharpoonup> FileLogger"
  m_summary_logger :: "FileLogger option"
  m_base_log_dir :: string
  m_initialized :: bool

type_synonym registry = "world \<times> LogManager"

text \<open>\<^verbatim>\<open>LogManager::initializeLogDirectory\<close>\<close>

definition initializeLogDirectory :: "registry \<Rightarrow> registry" where
  "initializeLogDirectory s =
     (case s of (w, this) \<Rightarrow>
        let base =
              (case environ w ''LOG_DIR'' of
                 Some log_dir_env \<Rightarrow> log_dir_env
               | None \<Rightarrow>
                   (case environ w ''ROS_WORKSPACE'' of
                      Some workspace \<Rightarrow> workspace @ ''/logs/current''
                    | None \<Rightarrow> ''/tmp/two_stage_int_logs''));
            create_dir_cmd = ''mkdir -p '' @ base;
            w1 = system create_dir_cmd w;
            summary_log_path = base @ ''/ALL_LOGS_SUMMARY.log'';
            (summary, w2) = FileLogger_new summary_log_path DEBUG w1
        in (w2, this\<lparr>m_base_log_dir := base, m_summary_logger := Some summary, m_initialized := True\<rparr>))"

text \<open>The private constructor: \<^verbatim>\<open>LogManager() : initialized_(false) { initializeLogDirectory(); }\<close>\<close>

definition LogManager_new :: "world \<Rightarrow> registry" where
  "LogManager_new w =
     initializeLogDirectory
       (w, \<lparr>m_loggers = Map.empty, m_summary_logger = None, m_base_log_dir = [], m_initialized = False\<rparr>)"

text \<open>
  The state of the process: the environment and the function-local static of
  \<^verbatim>\<open>getInstance\<close>, \<open>None\<close> until the first call constructs it.
\<close>

type_synonym process = "world \<times> LogManager option"

definition getInstance :: "process \<Rightarrow> registry" where
  "getInstance p =
     (case snd p of
        Some instance \<Rightarrow> (fst p, instance)
      | None \<Rightarrow> LogManager_new (fst p))"

text \<open>\<^verbatim>\<open>LogManager::getLogger\<close>\<close>

definition getLogger :: "string \<Rightarrow> LogLevel \<Rightarrow> registry \<Rightarrow> FileLogger option \<times> registry" where
  "getLogger module_name min_level s =
     (case s of (w, this) \<Rightarrow>
        (case m_loggers this module_name of
           Some it \<Rightarrow> (Some it, w, this)
         | None \<Rightarrow>
             let log_file_path = m_base_log_dir this @ ''/'' @ module_name @ ''.log'';
                 (logger, w1) = FileLogger_new log_file_path min_level w
             in if isOpen logger
                then (Some logger, w1, this\<lparr>m_loggers := (m_loggers this)(module_name \<mapsto> logger)\<rparr>)
                else (None, w1, this)))"

definition getSummaryLogger :: "LogManager \<Rightarrow> FileLogger option" where
  "getSummaryLogger this = m_summary_logger this"

definition getLogDirectory :: "LogManager \<Rightarrow> string" where
  "getLogDirectory this = m_base_log_dir this"

section \<open>writeLog\<close>

text \<open>
  What can keep a call from returning to its caller. Nothing in the header throws: a stream
  that fails to open, or a write that fails, reports it by the state of the stream
  (\<^verbatim>\<open>is_open()\<close>), as the streams' exception mask is left at its default. What is left is a
  call through a null \<^verbatim>\<open>shared_ptr\<close>.
\<close>

datatype error = NullPointer

text \<open>\<^verbatim>\<open>p->log(level, module, file, line, message)\<close> for a \<^verbatim>\<open>std::shared_ptr<FileLogger> p\<close>.\<close>

definition log_through ::
  "FileLogger option \<Rightarrow> LogLevel \<Rightarrow> string \<Rightarrow> string \<Rightarrow> int \<Rightarrow> string \<Rightarrow> world \<Rightarrow> error + world" where
  "log_through p level module file line message w =
     (case p of
        None \<Rightarrow> Inl NullPointer
      | Some this \<Rightarrow> Inr (log this level module file line message w))"

text \<open>
  \<^verbatim>\<open>writeLog\<close>: the module's logger is fetched with the default minimum level
  \<^verbatim>\<open>LogLevel::DEBUG\<close>; each of the two calls of \<^verbatim>\<open>log\<close> stands under the test of its pointer,
  \<^verbatim>\<open>if (logger)\<close> and \<^verbatim>\<open>if (summary_logger)\<close>. The result is \<open>Inr\<close> of the new state when the
  call returns.
\<close>

definition writeLog :: "string \<Rightarrow> LogLevel \<Rightarrow> string \<Rightarrow> int \<Rightarrow> string \<Rightarrow> process \<Rightarrow> error + process" where
  "writeLog module level file line message p =
     (let manager = getInstance p;
          (logger, w1, manager1) = getLogger module DEBUG manager
      in case (if logger \<noteq> None then log_through logger level module file line message w1
               else Inr w1) of
           Inl e \<Rightarrow> Inl e
         | Inr w2 \<Rightarrow>
             (let summary_logger = getSummaryLogger manager1
              in case (if summary_logger \<noteq> None
                       then log_through summary_logger level module file line message w2
                       else Inr w2) of
                   Inl e \<Rightarrow> Inl e
                 | Inr w3 \<Rightarrow> Inr (w3, Some manager1)))"

section \<open>Runs of the process\<close>

text \<open>
  What can happen to the process, one event at a time: a call
  \<^verbatim>\<open>LogManager::getInstance().getLogger(name, level)\<close>, a call of \<^verbatim>\<open>writeLog\<close>, a call
  of \<^verbatim>\<open>log\<close> on a logger that the caller holds (any logger, here), and a change of the
  surroundings by something else (the environment variables, which paths can be opened, which
  files the paths lead to, the contents of the files). A call that does not return would leave
  the state as it was. The remaining public members, \<^verbatim>\<open>exportLogs\<close>,
  \<^verbatim>\<open>getLogDirectory\<close> and \<^verbatim>\<open>getSummaryLogger\<close>, read the registry and change nothing
  of this state (\<^verbatim>\<open>exportLogs\<close> writes to \<^verbatim>\<open>std::cout\<close>), so they are no events.
\<close>

datatype event =
    GetLogger string LogLevel
  | WriteLog string LogLevel string int string
  | LoggerLog FileLogger LogLevel string string int string
  | Surroundings "string \<rightharpoonup> string" "string \<Rightarrow> bool" "string \<Rightarrow> nat" "nat \<Rightarrow> string"

fun exec :: "event \<Rightarrow> process \<Rightarrow> process" where
  "exec (GetLogger module_name min_level) p =
     (case getLogger module_name min_level (getInstance p) of
        (logger, w, manager) \<Rightarrow> (w, Some manager))"
| "exec (WriteLog module level file line message) p =
     (case writeLog module level file line message p of
        Inr p' \<Rightarrow> p'
      | Inl e \<Rightarrow> p)"
| "exec (LoggerLog logger level module file line message) p =
     (log logger level module file line message (fst p), snd p)"
| "exec (Surroundings e c n f) p =
     ((fst p)\<lparr>environ := e, can_open := c, inode := n, files := f\<rparr>, snd p)"

fun run :: "event list \<Rightarrow> process \<Rightarrow> process" where
  "run [] p = p"
| "run (e # es) p = run es (exec e p)"

section \<open>Notions used in the statements\<close>

text \<open>The two characters \<^verbatim>\<open>getFileName\<close> looks for.\<close>

definition is_separator :: "char \<Rightarrow> bool" where
  "is_separator c = (c = slash \<or> c = backslash)"

text \<open>
  The decimal numeral of exactly \<open>k\<close> digits for \<open>n\<close>, zero-padded on the left: the
  fields \<open>YYYY\<close>, \<open>MM\<close>, \<open>DD\<close>, \<open>HH\<close>, \<open>MM\<close>, \<open>SS\<close> and \<open>mmm\<close> of a timestamp.
\<close>

fun decimal_field :: "nat \<Rightarrow> nat \<Rightarrow> string" where
  "decimal_field 0 n = []"
| "decimal_field (Suc k) n = decimal_field k (n div 10) @ [digit_char n]"

text \<open>
  A broken-down time whose fields are in their calendar ranges (seconds up to 60 for a
  leap second) and whose year has four digits.
\<close>

definition calendar_fields_ok :: "tm \<Rightarrow> bool" where
  "calendar_fields_ok t =
     (1000 \<le> tm_year t + 1900 \<and> tm_year t + 1900 \<le> 9999
      \<and> 0 \<le> tm_mon t \<and> tm_mon t \<le> 11 \<and> 1 \<le> tm_mday t \<and> tm_mday t \<le> 31
      \<and> 0 \<le> tm_hour t \<and> tm_hour t \<le> 23 \<and> 0 \<le> tm_min t \<and> tm_min t \<le> 59
      \<and> 0 \<le> tm_sec t \<and> tm_sec t \<le> 60)"

text \<open>The paths of a module's file and of the summary file under a base directory.\<close>

definition module_log_path :: "string \<Rightarrow> string \<Rightarrow> string" where
  "module_log_path base module_name = base @ ''/'' @ module_name @ ''.log''"

definition summary_log_path :: "string \<Rightarrow> string" where
  "summary_log_path base = base @ ''/ALL_LOGS_SUMMARY.log''"

text \<open>
  The layout of one record, \<^verbatim>\<open>[timestamp] [LEVEL] [module] basename:line - message\<close>
  and a newline, from its six texts.
\<close>

definition log_record :: "string \<Rightarrow> string \<Rightarrow> string \<Rightarrow> string \<Rightarrow> string \<Rightarrow> string \<Rightarrow> string" where
  "log_record timestamp level_name module basename line_number message =
     ''['' @ timestamp @ ''] ['' @ level_name @ ''] ['' @ module @ ''] '' @ basename @ '':''
     @ line_number @ '' - '' @ message @ [newline]"

text \<open>
  The bytes of a file after a call of \<open>writeLog\<close> that returned; \<open>None\<close> for a call that did
  not return.
\<close>

definition file_after :: "nat \<Rightarrow> error + process \<Rightarrow> string option" where
  "file_after node r = (case r of Inl e \<Rightarrow> None | Inr p \<Rightarrow> Some (files (fst p) node))"

text \<open>
  What holds of the registry in every reachable state: it is initialised, the summary
  logger exists with minimum level \<open>DEBUG\<close> at \<open>ALL_LOGS_SUMMARY.log\<close> under the base
  directory, every registered logger is open at its module's path, and every logger was
  constructed before now.
\<close>

definition registry_ok :: "registry \<Rightarrow> bool" where
  "registry_ok s =
     (case s of (w, this) \<Rightarrow>
        m_initialized this
        \<and> (\<exists>sl. m_summary_logger this = Some sl \<and> m_min_level sl = DEBUG
              \<and> m_log_file_path sl = summary_log_path (m_base_log_dir this)
              \<and> object_id sl < constructed w)
        \<and> (\<forall>name l. m_loggers this name = Some l \<longrightarrow>
              log_file_is_open l \<and> m_log_file_path l = module_log_path (m_base_log_dir this) name
              \<and> object_id l < constructed w))"

definition process_ok :: "process \<Rightarrow> bool" where
  "process_ok p = (case snd p of None \<Rightarrow> True | Some this \<Rightarrow> registry_ok (fst p, this))"

text \<open>
  How the registry may differ between an earlier and a later state: the base directory and
  the summary logger are the same, the loggers registered earlier are still registered, and
  no construction is forgotten.
\<close>

definition registry_grows :: "registry \<Rightarrow> registry \<Rightarrow> bool" where
  "registry_grows s s' =
     (case s of (w, this) \<Rightarrow> case s' of (w', this') \<Rightarrow>
        m_base_log_dir this' = m_base_log_dir this
        \<and> m_summary_logger this' = m_summary_logger this
        \<and> constructed w \<le> constructed w'
        \<and> (\<forall>name l. m_loggers this name = Some l \<longrightarrow> m_loggers this' name = Some l))"

section \<open>Example surroundings\<close>

text \<open>
  Concrete surroundings for the examples below. In \<open>example_world\<close> no environment
  variable is set, every path can be opened, every file is empty, and each clock reading
  is 1701959425.123999999 seconds after the epoch, which \<open>local_time\<close> shows as
  2023-12-07 14:30:25. The summary file is file 10, and the path with \<^verbatim>\<open>/./\<close> in it leads
  there too; the files of \<open>Planner\<close>, \<open>CUSTOM_MODULE\<close> and \<open>CONTROLLER\<close> are 11, 12 and 13;
  every other path leads to file 0, which no example looks at.
\<close>

definition example_inode :: "string \<Rightarrow> nat" where
  "example_inode path =
     (if path = ''/tmp/two_stage_int_logs/ALL_LOGS_SUMMARY.log'' then 10
      else if path = ''/tmp/two_stage_int_logs/./ALL_LOGS_SUMMARY.log'' then 10
      else if path = ''/tmp/two_stage_int_logs/Planner.log'' then 11
      else if path = ''/tmp/two_stage_int_logs/CUSTOM_MODULE.log'' then 12
      else if path = ''/tmp/two_stage_int_logs/CONTROLLER.log'' then 13
      else 0)"

definition example_tm :: tm where
  "example_tm = \<lparr>tm_sec = 25, tm_min = 30, tm_hour = 14, tm_mday = 7, tm_mon = 11, tm_year = 123\<rparr>"

definition example_world :: world where
  "example_world =
     \<lparr>environ = Map.empty, can_open = (\<lambda>path. True), inode = example_inode,
      files = (\<lambda>node. []), cerr = [], shell = [], clock = (\<lambda>k. 1701959425123999999),
      reads = 0, local_time = (\<lambda>t. example_tm), constructed = 0\<rparr>"

text \<open>No path can be opened: the log directory is missing or cannot be written.\<close>

definition locked_world :: world where
  "locked_world = example_world\<lparr>can_open := (\<lambda>path. False)\<rparr>"

text \<open>Every path but the summary file can be opened.\<close>

definition summary_locked_world :: world where
  "summary_locked_world =
     example_world\<lparr>can_open := (\<lambda>path. path \<noteq> ''/tmp/two_stage_int_logs/ALL_LOGS_SUMMARY.log'')\<rparr>"

text \<open>Only the summary file can be opened.\<close>

definition modules_locked_world :: world where
  "modules_locked_world =
     example_world\<lparr>can_open := (\<lambda>path. path = ''/tmp/two_stage_int_logs/ALL_LOGS_SUMMARY.log'')\<rparr>"

text \<open>The workspace variable is set, the log-directory variable is not.\<close>

definition workspace_world :: world where
  "workspace_world = example_world\<lparr>environ := [''ROS_WORKSPACE'' \<mapsto> ''/home/user/catkin_ws'']\<rparr>"

text \<open>Something outside the process makes every path openable (and leaves the files empty).\<close>

definition unlock :: event where
  "unlock = Surroundings Map.empty (\<lambda>path. True) example_inode (\<lambda>node. [])"

section \<open>Properties\<close>

subsection \<open>Basename\<close>

lemma find_last_of_None: "find_last_of xs cs = None \<longleftrightarrow> set xs \<inter> set cs = {}"
  by (induction xs) (auto split: option.splits)

lemma find_last_of_Some:
  "find_last_of xs cs = Some i \<Longrightarrow>
     i < length xs \<and> xs ! i \<in> set cs \<and> set (drop (Suc i) xs) \<inter> set cs = {}"
proof (induction xs arbitrary: i)
  case Nil
  then show ?case by simp
next
  case (Cons x xs)
  show ?case
  proof (cases "find_last_of xs cs")
    case None
    with Cons.prems have "i = 0" and "x \<in> set cs"
      by (auto split: if_splits)
    moreover from None have "set xs \<inter> set cs = {}"
      by (simp add: find_last_of_None)
    ultimately show ?thesis by simp
  next
    case (Some j)
    with Cons.prems have "i = Suc j" by simp
    with Cons.IH [OF Some] show ?thesis by simp
  qed
qed

subsection \<open>Decimal fields\<close>

lemma digit_char_mod [simp]: "digit_char (n mod 10) = digit_char n"
  by (simp add: digit_char_def)

lemma digit_char_zero: "digit_char 0 = CHR ''0''"
  by (simp add: digit_char_def)

lemma digit_char_small: "n < 10 \<Longrightarrow> digit_char (n div 10) = CHR ''0''"
  by (simp add: digit_char_def)

lemma digit_char_digit: "digit_char d \<in> set ''0123456789''"
proof -
  have "d mod 10 < length ''0123456789''" by simp
  then show ?thesis unfolding digit_char_def by (rule nth_mem)
qed

lemma div_10_10: "(n::nat) div 10 div 10 = n div 100"
  by (simp add: div_mult2_eq)

lemma div_10_100: "(n::nat) div 10 div 100 = n div 1000"
  by (simp add: div_mult2_eq)

lemma show_nat_1: "n < 10 \<Longrightarrow> show_nat n = [digit_char n]"
  by (simp add: show_nat.simps)

lemma show_nat_2: "10 \<le> n \<Longrightarrow> n < 100 \<Longrightarrow> show_nat n = [digit_char (n div 10), digit_char n]"
  by (subst show_nat.simps) (simp add: show_nat_1)

lemma show_nat_3:
  assumes "100 \<le> n" and "n < 1000"
  shows "show_nat n = [digit_char (n div 100), digit_char (n div 10), digit_char n]"
proof -
  from assms have "show_nat n = show_nat (n div 10) @ [digit_char (n mod 10)]"
    by (subst show_nat.simps) simp
  with assms show ?thesis
    by (simp add: show_nat_2 div_10_10)
qed

lemma show_nat_4:
  assumes "1000 \<le> n" and "n < 10000"
  shows "show_nat n =
    [digit_char (n div 1000), digit_char (n div 100), digit_char (n div 10), digit_char n]"
proof -
  from assms have "show_nat n = show_nat (n div 10) @ [digit_char (n mod 10)]"
    by (subst show_nat.simps) simp
  with assms show ?thesis
    by (simp add: show_nat_3 div_10_10 div_10_100)
qed

lemma show_nat_numeral [simp]:
  "show_nat (numeral k) =
     (if (numeral k :: nat) < 10 then [digit_char (numeral k)]
      else show_nat (numeral k div 10) @ [digit_char (numeral k)])"
  by (subst show_nat.simps, subst digit_char_mod, rule refl)

lemma show_nat_0 [simp]: "show_nat 0 = ''0''"
  by (simp add: show_nat.simps digit_char_def)

lemma show_nat_Suc_0 [simp]: "show_nat (Suc 0) = ''1''"
  by (simp add: show_nat.simps digit_char_def)

lemma decimal_field_2: "decimal_field 2 n = [digit_char (n div 10), digit_char n]"
  by (simp add: numeral_2_eq_2)

lemma decimal_field_3:
  "decimal_field 3 n = [digit_char (n div 100), digit_char (n div 10), digit_char n]"
  by (simp add: numeral_3_eq_3 div_10_10)

lemma decimal_field_4:
  "decimal_field 4 n =
     [digit_char (n div 1000), digit_char (n div 100), digit_char (n div 10), digit_char n]"
proof -
  have "(4::nat) = Suc 3" by simp
  then show ?thesis
    by (simp only: decimal_field.simps decimal_field_3) (simp add: div_10_10 div_10_100)
qed

lemma decimal_field_length: "length (decimal_field k n) = k"
  by (induction k arbitrary: n) simp_all

lemma decimal_field_digits: "set (decimal_field k n) \<subseteq> set ''0123456789''"
proof (induction k arbitrary: n)
  case 0
  show ?case by simp
next
  case (Suc k)
  from Suc [of "n div 10"] digit_char_digit [of n] show ?case
    by simp
qed

lemma two_digits_field: "0 \<le> n \<Longrightarrow> n < 100 \<Longrightarrow> two_digits n = decimal_field 2 (nat n)"
  by (cases "nat n < 10")
     (simp_all add: two_digits_def setw_setfill_def show_int_def show_nat_1 show_nat_2
        decimal_field_2 digit_char_small digit_char_zero)

lemma three_digits_field:
  assumes "0 \<le> n" and "n < 1000"
  shows "setw_setfill 3 CHR ''0'' (show_int n) = decimal_field 3 (nat n)"
proof -
  consider "nat n < 10" | "10 \<le> nat n" "nat n < 100" | "100 \<le> nat n" "nat n < 1000"
    using assms by linarith
  then show ?thesis
  proof cases
    case 1
    then have "digit_char (nat n div 100) = CHR ''0''" "digit_char (nat n div 10) = CHR ''0''"
      by (simp_all add: digit_char_def)
    with 1 assms show ?thesis
      by (simp add: setw_setfill_def show_int_def show_nat_1 decimal_field_3 numeral_2_eq_2)
  next
    case 2
    then have "digit_char (nat n div 100) = CHR ''0''"
      by (simp add: digit_char_def)
    with 2 assms show ?thesis
      by (simp add: setw_setfill_def show_int_def show_nat_2 decimal_field_3)
  next
    case 3
    with assms show ?thesis
      by (simp add: setw_setfill_def show_int_def show_nat_3 decimal_field_3)
  qed
qed

lemma year_field: "1000 \<le> n \<Longrightarrow> n < 10000 \<Longrightarrow> show_int n = decimal_field 4 (nat n)"
  by (simp add: show_int_def show_nat_4 decimal_field_4)

lemma to_time_t_nonneg: "0 \<le> now \<Longrightarrow> to_time_t now = now div 1000000000"
  by (simp add: to_time_t_def signed_divide_int_def sgn_if)

lemma milliseconds_nonneg:
  assumes "0 \<le> now"
  shows "duration_cast_milliseconds now smod 1000 = now mod 1000000000 div 1000000"
proof -
  from assms have d: "now sdiv 1000000 = now div 1000000"
    by (simp add: signed_divide_int_def sgn_if)
  have "0 \<le> now div 1000000" using assms by simp
  then have "(now div 1000000) smod 1000 = (now div 1000000) mod 1000"
    by (simp add: smod_mod_positive)
  also have "\<dots> = now mod 1000000000 div 1000000"
  proof -
    have "now mod (1000000 * 1000) = 1000000 * (now div 1000000 mod 1000) + now mod 1000000"
      by (rule zmod_zmult2_eq) simp
    then have "now mod 1000000000 div 1000000
        = (now mod 1000000 + (now div 1000000 mod 1000) * 1000000) div 1000000"
      by (simp add: ac_simps)
    also have "\<dots> = now div 1000000 mod 1000"
      by (simp only: div_mult_self1 [of "1000000::int" "now mod 1000000"])
    finally show ?thesis by simp
  qed
  finally show ?thesis by (simp add: duration_cast_milliseconds_def d)
qed

lemma milliseconds_range: "0 \<le> (now::int) mod 1000000000 div 1000000 \<and> now mod 1000000000 div 1000000 < 1000"
proof -
  have "0 \<le> now mod 1000000000" and "now mod 1000000000 < 1000000000" by simp_all
  then show ?thesis by linarith
qed

subsection \<open>One step of each operation\<close>

lemma getInstance_Some [simp]: "getInstance (w, Some this) = (w, this)"
  by (simp add: getInstance_def)

lemma getLogger_found:
  "m_loggers this name = Some it \<Longrightarrow> getLogger name lvl (w, this) = (Some it, w, this)"
  by (simp add: getLogger_def)

lemma getLogger_created:
  "m_loggers this name = None \<Longrightarrow> can_open w (module_log_path (m_base_log_dir this) name) \<Longrightarrow>
   getLogger name lvl (w, this) =
     (Some \<lparr>m_log_file_path = module_log_path (m_base_log_dir this) name,
            log_file_is_open = True,
            log_file_node = inode w (module_log_path (m_base_log_dir this) name),
            m_min_level = lvl, object_id = constructed w\<rparr>,
      w\<lparr>constructed := Suc (constructed w)\<rparr>,
      this\<lparr>m_loggers := (m_loggers this)(name \<mapsto>
         \<lparr>m_log_file_path = module_log_path (m_base_log_dir this) name,
          log_file_is_open = True,
          log_file_node = inode w (module_log_path (m_base_log_dir this) name),
          m_min_level = lvl, object_id = constructed w\<rparr>)\<rparr>)"
  by (simp add: getLogger_def module_log_path_def FileLogger_new_def Let_def isOpen_def)

lemma getLogger_failed:
  "m_loggers this name = None \<Longrightarrow> \<not> can_open w (module_log_path (m_base_log_dir this) name) \<Longrightarrow>
   getLogger name lvl (w, this) =
     (None,
      w\<lparr>constructed := Suc (constructed w),
        cerr := cerr w @ ''Error: Cannot open log file: ''
                @ module_log_path (m_base_log_dir this) name @ [newline]\<rparr>,
      this)"
  by (simp add: getLogger_def module_log_path_def FileLogger_new_def Let_def isOpen_def)

lemma getLogger_None_iff:
  "fst (getLogger name lvl (w, this)) = None \<longleftrightarrow>
     m_loggers this name = None \<and> \<not> can_open w (module_log_path (m_base_log_dir this) name)"
proof (cases "m_loggers this name")
  case (Some it)
  then show ?thesis by (simp add: getLogger_found)
next
  case None
  then show ?thesis
    by (cases "can_open w (module_log_path (m_base_log_dir this) name)")
       (simp_all add: getLogger_created getLogger_failed)
qed

lemma getLogger_collapse:
  "fst (getLogger name lvl s) = r \<Longrightarrow>
   getLogger name lvl s = (r, fst (snd (getLogger name lvl s)), snd (snd (getLogger name lvl s)))"
  by (cases "getLogger name lvl s") auto

lemma log_dropped:
  "level_less level (m_min_level this) \<or> \<not> log_file_is_open this \<Longrightarrow>
   log this level module file line message w = w"
  by (simp add: log_def)

lemma log_written:
  "\<not> level_less level (m_min_level this) \<Longrightarrow> log_file_is_open this \<Longrightarrow>
   log this level module file line message w =
     append_file (log_file_node this)
       (log_record (fst (getCurrentTimestamp w)) (logLevelToString level) module (getFileName file)
          (show_int line) message)
       (w\<lparr>reads := Suc (reads w)\<rparr>)"
  by (simp add: log_def log_record_def getCurrentTimestamp_def system_clock_now_def Let_def
      split: prod.splits)

lemma log_files:
  "files (log this level module file line message w) =
     (if level_less level (m_min_level this) \<or> \<not> log_file_is_open this then files w
      else (files w)(log_file_node this := files w (log_file_node this)
             @ log_record (fst (getCurrentTimestamp w)) (logLevelToString level) module
                 (getFileName file) (show_int line) message))"
  by (simp add: log_dropped log_written append_file_def)

lemma log_reads:
  "reads (log this level module file line message w) =
     (if level_less level (m_min_level this) \<or> \<not> log_file_is_open this then reads w
      else Suc (reads w))"
  by (simp add: log_dropped log_written append_file_def)

lemma log_constructed [simp]: "constructed (log this level module file line message w) = constructed w"
  by (simp add: log_def append_file_def getCurrentTimestamp_def system_clock_now_def Let_def
      split: prod.splits)

lemma log_clock [simp]: "clock (log logger level module file line message w) = clock w"
  by (simp add: log_def append_file_def getCurrentTimestamp_def system_clock_now_def Let_def
      split: prod.splits)

lemma log_local_time [simp]: "local_time (log logger level module file line message w) = local_time w"
  by (simp add: log_def append_file_def getCurrentTimestamp_def system_clock_now_def Let_def
      split: prod.splits)

lemma level_less_DEBUG [simp]: "\<not> level_less level DEBUG"
  by (cases level) (simp_all add: level_less_def)

lemma logLevelToString_cases:
  "logLevelToString level =
     (case level of DEBUG \<Rightarrow> ''DEBUG'' | INFO \<Rightarrow> ''INFO'' | WARN \<Rightarrow> ''WARN'' | ERROR \<Rightarrow> ''ERROR'')"
  by (cases level) simp_all

lemma getCurrentTimestamp_depends:
  "clock w' = clock w \<Longrightarrow> reads w' = reads w \<Longrightarrow> local_time w' = local_time w \<Longrightarrow>
   fst (getCurrentTimestamp w') = fst (getCurrentTimestamp w)"
  by (simp add: getCurrentTimestamp_def system_clock_now_def Let_def split: prod.splits)

lemma writeLog_steps:
  assumes "getLogger module DEBUG (getInstance p) = (logger, w1, manager1)"
  shows "writeLog module level file line message p =
     Inr ((case m_summary_logger manager1 of
             Some l \<Rightarrow> log l level module file line message
                         (case logger of Some l \<Rightarrow> log l level module file line message w1 | None \<Rightarrow> w1)
           | None \<Rightarrow> (case logger of Some l \<Rightarrow> log l level module file line message w1 | None \<Rightarrow> w1)),
          Some manager1)"
  using assms
  by (simp add: writeLog_def getSummaryLogger_def log_through_def Let_def split: option.splits)

lemma writeLog_returns: "\<exists>p'. writeLog module level file line message p = Inr p'"
proof -
  obtain logger w1 manager1
    where "getLogger module DEBUG (getInstance p) = (logger, w1, manager1)"
    by (cases "getLogger module DEBUG (getInstance p)")
  then show ?thesis
    by (simp add: writeLog_steps)
qed

subsection \<open>What every reachable registry satisfies\<close>

lemma registry_ok_new: "registry_ok (LogManager_new w)"
  by (simp add: LogManager_new_def initializeLogDirectory_def registry_ok_def summary_log_path_def
      FileLogger_new_def system_def Let_def)

lemma registry_ok_world:
  "registry_ok (w, this) \<Longrightarrow> constructed w \<le> constructed w' \<Longrightarrow> registry_ok (w', this)"
  by (fastforce simp: registry_ok_def)

lemma registry_ok_getLogger:
  assumes "registry_ok s"
  shows "registry_ok (snd (getLogger name lvl s))"
proof -
  obtain w this where s: "s = (w, this)" by (cases s)
  show ?thesis
  proof (cases "m_loggers this name")
    case (Some it)
    with assms s show ?thesis by (simp add: getLogger_found)
  next
    case None
    show ?thesis
    proof (cases "can_open w (module_log_path (m_base_log_dir this) name)")
      case True
      with None assms s show ?thesis
        by (auto simp: getLogger_created registry_ok_def less_Suc_eq)
    next
      case False
      with None assms s show ?thesis
        by (auto simp: getLogger_failed registry_ok_def less_Suc_eq)
    qed
  qed
qed

lemma registry_ok_getInstance: "process_ok p \<Longrightarrow> registry_ok (getInstance p)"
  by (cases p) (auto simp: process_ok_def getInstance_def registry_ok_new split: option.splits)

lemma process_ok_GetLogger:
  assumes "process_ok p"
  shows "process_ok (exec (GetLogger name lvl) p)"
proof -
  obtain r w this where g: "getLogger name lvl (getInstance p) = (r, w, this)"
    by (cases "getLogger name lvl (getInstance p)")
  have "registry_ok (snd (getLogger name lvl (getInstance p)))"
    using assms by (intro registry_ok_getLogger registry_ok_getInstance)
  with g show ?thesis by (simp add: process_ok_def)
qed

lemma process_ok_WriteLog:
  assumes "process_ok p"
  shows "process_ok (exec (WriteLog module level file line message) p)"
proof -
  obtain r w1 this1 where g: "getLogger module DEBUG (getInstance p) = (r, w1, this1)"
    by (cases "getLogger module DEBUG (getInstance p)")
  have "registry_ok (snd (getLogger module DEBUG (getInstance p)))"
    using assms by (intro registry_ok_getLogger registry_ok_getInstance)
  with g have ok: "registry_ok (w1, this1)" by simp
  have "registry_ok (fst (exec (WriteLog module level file line message) p), this1)"
    by (rule registry_ok_world [OF ok])
       (simp add: writeLog_steps [OF g] split: option.splits)
  then show ?thesis by (simp add: process_ok_def writeLog_steps [OF g])
qed

lemma process_ok_LoggerLog:
  assumes "process_ok p"
  shows "process_ok (exec (LoggerLog logger level module file line message) p)"
proof (cases "snd p")
  case None
  then show ?thesis by (simp add: process_ok_def)
next
  case (Some manager)
  with assms have "registry_ok (fst p, manager)"
    by (simp add: process_ok_def)
  then have "registry_ok (log logger level module file line message (fst p), manager)"
    by (rule registry_ok_world) simp
  with Some show ?thesis by (simp add: process_ok_def)
qed

lemma process_ok_Surroundings:
  assumes "process_ok p"
  shows "process_ok (exec (Surroundings e c n f) p)"
  using assms by (cases p) (auto simp: process_ok_def registry_ok_def split: option.splits)

lemma process_ok_exec: "process_ok p \<Longrightarrow> process_ok (exec e p)"
  by (cases e)
     (simp_all only: process_ok_GetLogger process_ok_WriteLog process_ok_LoggerLog
        process_ok_Surroundings)

lemma process_ok_run: "process_ok p \<Longrightarrow> process_ok (run evs p)"
  by (induction evs arbitrary: p) (simp_all add: process_ok_exec)

lemma process_ok_initial: "process_ok (w, None)"
  by (simp add: process_ok_def)

lemma process_ok_Some: "process_ok (w, Some this) \<longleftrightarrow> registry_ok (w, this)"
  by (simp add: process_ok_def)

lemma reachable_registry_ok: "registry_ok (getInstance (run evs (w0, None)))"
  by (intro registry_ok_getInstance process_ok_run process_ok_initial)

lemma reachable_summary:
  assumes "registry_ok (w, manager)"
  obtains sl where "m_summary_logger manager = Some sl" and "m_min_level sl = DEBUG"
    and "m_log_file_path sl = summary_log_path (m_base_log_dir manager)"
  using assms by (auto simp: registry_ok_def)

lemma getLogger_Some_ok:
  assumes ok: "registry_ok (w, this)"
      and g: "getLogger name lvl (w, this) = (Some l, w1, this1)"
  shows "log_file_is_open l
    \<and> m_log_file_path l = module_log_path (m_base_log_dir this) name
    \<and> m_loggers this1 name = Some l
    \<and> m_base_log_dir this1 = m_base_log_dir this
    \<and> m_summary_logger this1 = m_summary_logger this
    \<and> files w1 = files w \<and> clock w1 = clock w \<and> reads w1 = reads w
    \<and> local_time w1 = local_time w
    \<and> m_min_level l = (case m_loggers this name of None \<Rightarrow> lvl | Some it \<Rightarrow> m_min_level it)"
proof (cases "m_loggers this name")
  case (Some it)
  with g have "l = it" "w1 = w" "this1 = this" by (simp_all add: getLogger_found)
  with Some ok show ?thesis
    by (simp add: registry_ok_def)
next
  case None
  show ?thesis
  proof (cases "can_open w (module_log_path (m_base_log_dir this) name)")
    case True
    from g show ?thesis
      unfolding getLogger_created [OF None True] using None by auto
  next
    case False
    from g show ?thesis
      unfolding getLogger_failed [OF None False] by simp
  qed
qed

subsection \<open>What a run leaves in place\<close>

lemma registry_grows_refl: "registry_grows s s"
  by (cases s) (simp add: registry_grows_def)

lemma registry_grows_trans:
  "registry_grows s s' \<Longrightarrow> registry_grows s' s'' \<Longrightarrow> registry_grows s s''"
  by (cases s, cases s', cases s'') (auto simp: registry_grows_def)

lemma registry_grows_getLogger: "registry_grows s (snd (getLogger name lvl s))"
proof -
  obtain w this where s: "s = (w, this)" by (cases s)
  show ?thesis
  proof (cases "m_loggers this name")
    case (Some it)
    with s show ?thesis by (simp add: getLogger_found registry_grows_def)
  next
    case None
    then show ?thesis
      unfolding s
      by (cases "can_open w (module_log_path (m_base_log_dir this) name)")
         (simp_all add: getLogger_created getLogger_failed registry_grows_def)
  qed
qed

lemma registry_grows_exec:
  "\<exists>w' this'. exec e (w, Some this) = (w', Some this') \<and> registry_grows (w, this) (w', this')"
proof (cases e)
  case (GetLogger name lvl)
  obtain r w' this' where g: "getLogger name lvl (w, this) = (r, w', this')"
    by (cases "getLogger name lvl (w, this)")
  with registry_grows_getLogger [of "(w, this)" name lvl] GetLogger
  show ?thesis by simp
next
  case (WriteLog md lv fl ln msg)
  obtain r w1 this1 where g: "getLogger md DEBUG (getInstance (w, Some this)) = (r, w1, this1)"
    by (cases "getLogger md DEBUG (getInstance (w, Some this))")
  with registry_grows_getLogger [of "(w, this)" md DEBUG]
  have "registry_grows (w, this) (w1, this1)" by simp
  then have "registry_grows (w, this) (fst (exec (WriteLog md lv fl ln msg) (w, Some this)), this1)"
    by (simp add: writeLog_steps [OF g] registry_grows_def split: option.splits)
  with WriteLog show ?thesis
    by (simp add: writeLog_steps [OF g])
next
  case (LoggerLog logger lv md fl ln msg)
  then show ?thesis by (simp add: registry_grows_def)
next
  case (Surroundings e c n f)
  then show ?thesis by (simp add: registry_grows_def)
qed

lemma registry_grows_run:
  "\<exists>w' this'. run evs (w, Some this) = (w', Some this') \<and> registry_grows (w, this) (w', this')"
proof (induction evs arbitrary: w this)
  case Nil
  show ?case by (simp add: registry_grows_refl)
next
  case (Cons e evs)
  from registry_grows_exec [of e w this] obtain w1 this1
    where e: "exec e (w, Some this) = (w1, Some this1)" and g1: "registry_grows (w, this) (w1, this1)"
    by blast
  from Cons.IH [of w1 this1] obtain w' this'
    where r: "run evs (w1, Some this1) = (w', Some this')" and g2: "registry_grows (w1, this1) (w', this')"
    by blast
  from e r registry_grows_trans [OF g1 g2] show ?case by simp
qed

lemma run_from_instance:
  obtains w2 m2 where "run evs (w1, Some m1) = (w2, Some m2)" and "registry_grows (w1, m1) (w2, m2)"
    and "registry_ok (w1, m1) \<longrightarrow> registry_ok (w2, m2)"
proof -
  from registry_grows_run [of evs w1 m1] obtain w2 m2
    where r: "run evs (w1, Some m1) = (w2, Some m2)" and g: "registry_grows (w1, m1) (w2, m2)"
    by blast
  have "registry_ok (w2, m2)" if "registry_ok (w1, m1)"
    using process_ok_run [of "(w1, Some m1)" evs] that r by (simp add: process_ok_Some)
  with r g that show thesis by blast
qed

section \<open>The claims\<close>

text \<open>
  In the statements below, \<open>run evs (w0, None)\<close> is the process after any events \<open>evs\<close>,
  started in any surroundings \<open>w0\<close> before the registry exists, and
  \<open>getInstance (run evs (w0, None)) = (w, manager)\<close> names the surroundings and the registry
  that a call made in that state works on.
\<close>

subsection \<open>C1: an accepted record goes to the module's file and to the summary file\<close>

text \<open>
  C1, as amended. In every reachable state, for every call
  \<open>writeLog module level file line message\<close> for which the module's logger is there
  (fetched or just created, so it opened), \<open>level\<close> is not below that logger's minimum, the
  summary logger opened too, and the two loggers are open on two different files: the call
  returns, the file of the module's logger (opened at \<open>base/module.log\<close>) and the file of the
  summary logger (opened at \<open>base/ALL_LOGS_SUMMARY.log\<close>) each grow by exactly one formatted
  record, no other file changes, and the two records have the same level name, module name,
  basename, line number and message; only their timestamps come from two successive clock
  readings.
\<close>

theorem writeLog_appends_to_both:
  assumes reach: "getInstance (run evs (w0, None)) = (w, manager)"
      and opened: "getLogger module DEBUG (w, manager) = (Some l, w1, manager1)"
      and accepted: "\<not> level_less level (m_min_level l)"
      and summary: "m_summary_logger manager = Some sl"
      and summary_open: "log_file_is_open sl"
      and two_files: "log_file_node l \<noteq> log_file_node sl"
  shows "m_log_file_path l = m_base_log_dir manager @ ''/'' @ module @ ''.log''
       \<and> m_log_file_path sl = m_base_log_dir manager @ ''/ALL_LOGS_SUMMARY.log''
       \<and> (\<exists>w'. writeLog module level file line message (run evs (w0, None)) = Inr (w', Some manager1)
             \<and> files w' =
                 (files w)
                   (log_file_node l := files w (log_file_node l)
                      @ log_record (fst (getCurrentTimestamp w)) (logLevelToString level) module
                          (getFileName file) (show_int line) message,
                    log_file_node sl := files w (log_file_node sl)
                      @ log_record (fst (getCurrentTimestamp (w\<lparr>reads := Suc (reads w)\<rparr>)))
                          (logLevelToString level) module (getFileName file) (show_int line)
                          message))"
proof -
  have ok: "registry_ok (w, manager)"
    using reachable_registry_ok [of evs w0] reach by simp
  note facts = getLogger_Some_ok [OF ok opened]
  from ok summary have sl: "m_min_level sl = DEBUG"
    "m_log_file_path sl = summary_log_path (m_base_log_dir manager)"
    by (auto simp: registry_ok_def)
  from facts have pl: "m_log_file_path l = module_log_path (m_base_log_dir manager) module"
    by simp
  let ?w2 = "log l level module file line message w1"
  let ?w3 = "log sl level module file line message ?w2"
  have g: "getLogger module DEBUG (getInstance (run evs (w0, None))) = (Some l, w1, manager1)"
    using reach opened by simp
  have result: "writeLog module level file line message (run evs (w0, None))
      = Inr (?w3, Some manager1)"
    using facts summary by (simp add: writeLog_steps [OF g])
  have t1: "fst (getCurrentTimestamp w1) = fst (getCurrentTimestamp w)"
    using facts by (intro getCurrentTimestamp_depends) simp_all
  have t2: "fst (getCurrentTimestamp ?w2) = fst (getCurrentTimestamp (w\<lparr>reads := Suc (reads w)\<rparr>))"
    using facts accepted by (intro getCurrentTimestamp_depends) (simp_all add: log_reads)
  have f2: "files ?w2 = (files w)(log_file_node l := files w (log_file_node l)
      @ log_record (fst (getCurrentTimestamp w)) (logLevelToString level) module
          (getFileName file) (show_int line) message)"
    using facts accepted by (simp add: log_files t1)
  have step: "files ?w3 =
      (files ?w2)(log_file_node sl := files ?w2 (log_file_node sl)
        @ log_record (fst (getCurrentTimestamp ?w2)) (logLevelToString level) module
            (getFileName file) (show_int line) message)"
    using summary_open by (simp add: log_files sl)
  have same: "files ?w2 (log_file_node sl) = files w (log_file_node sl)"
    using two_files by (simp add: f2)
  have "files ?w3 =
           (files w)
             (log_file_node l := files w (log_file_node l)
                @ log_record (fst (getCurrentTimestamp w)) (logLevelToString level) module
                    (getFileName file) (show_int line) message,
              log_file_node sl := files w (log_file_node sl)
                @ log_record (fst (getCurrentTimestamp (w\<lparr>reads := Suc (reads w)\<rparr>)))
                    (logLevelToString level) module (getFileName file) (show_int line) message)"
    by (simp only: step same) (simp only: t2 f2)
  with result have "\<exists>w'. writeLog module level file line message (run evs (w0, None)) = Inr (w', Some manager1)
             \<and> files w' =
                 (files w)
                   (log_file_node l := files w (log_file_node l)
                      @ log_record (fst (getCurrentTimestamp w)) (logLevelToString level) module
                          (getFileName file) (show_int line) message,
                    log_file_node sl := files w (log_file_node sl)
                      @ log_record (fst (getCurrentTimestamp (w\<lparr>reads := Suc (reads w)\<rparr>)))
                          (logLevelToString level) module (getFileName file) (show_int line)
                          message)"
    by blast
  moreover have "m_log_file_path l = m_base_log_dir manager @ ''/'' @ module @ ''.log''"
    using pl by (simp add: module_log_path_def)
  moreover have "m_log_file_path sl = m_base_log_dir manager @ ''/ALL_LOGS_SUMMARY.log''"
    using sl by (simp add: summary_log_path_def)
  ultimately show ?thesis by (intro conjI)
qed

text \<open>
  The statement at work: a first \<open>writeLog\<close> for \<open>Planner\<close> in \<open>example_world\<close>, where the
  file of \<open>Planner\<close> is 11 and the summary file is 10.
\<close>

theorem writeLog_appends_to_both_witness:
  "file_after 11 (writeLog ''Planner'' WARN ''/home/user/src/planner.cpp'' 42 ''value out of range''
       (example_world, None))
     = Some (''[2023-12-07 14:30:25.123] [WARN] [Planner] planner.cpp:42 - value out of range''
             @ [newline])
   \<and> file_after 10 (writeLog ''Planner'' WARN ''/home/user/src/planner.cpp'' 42 ''value out of range''
       (example_world, None))
     = Some (''[2023-12-07 14:30:25.123] [WARN] [Planner] planner.cpp:42 - value out of range''
             @ [newline])"
proof -
  let ?W = "fst (getInstance (example_world, None))"
  let ?M = "snd (getInstance (example_world, None))"
  let ?L = "\<lparr>m_log_file_path = ''/tmp/two_stage_int_logs/Planner.log'', log_file_is_open = True,
             log_file_node = 11, m_min_level = DEBUG, object_id = 1\<rparr>"
  let ?S = "\<lparr>m_log_file_path = ''/tmp/two_stage_int_logs/ALL_LOGS_SUMMARY.log'',
             log_file_is_open = True, log_file_node = 10, m_min_level = DEBUG, object_id = 0\<rparr>"
  have reach: "getInstance (run [] (example_world, None)) = (?W, ?M)"
    by simp
  have "fst (getLogger ''Planner'' DEBUG (getInstance (example_world, None))) = Some ?L"
    by code_simp
  then have opened: "getLogger ''Planner'' DEBUG (?W, ?M) =
      (Some ?L, fst (snd (getLogger ''Planner'' DEBUG (?W, ?M))),
       snd (snd (getLogger ''Planner'' DEBUG (?W, ?M))))"
    by (intro getLogger_collapse) simp
  have accepted: "\<not> level_less WARN (m_min_level ?L)"
    by simp
  have summary: "m_summary_logger ?M = Some ?S"
    by code_simp
  have summary_open: "log_file_is_open ?S"
    by simp
  have two_files: "log_file_node ?L \<noteq> log_file_node ?S"
    by simp
  have before: "files ?W 11 = []" "files ?W 10 = []"
    by code_simp+
  have stamps: "fst (getCurrentTimestamp ?W) = ''2023-12-07 14:30:25.123''"
    "fst (getCurrentTimestamp (?W\<lparr>reads := Suc (reads ?W)\<rparr>)) = ''2023-12-07 14:30:25.123''"
    by code_simp+
  have line: "log_record ''2023-12-07 14:30:25.123'' ''WARN'' ''Planner''
      (getFileName ''/home/user/src/planner.cpp'') (show_int 42) ''value out of range''
    = ''[2023-12-07 14:30:25.123] [WARN] [Planner] planner.cpp:42 - value out of range'' @ [newline]"
    by code_simp
  from writeLog_appends_to_both [OF reach opened accepted summary summary_open two_files,
      of "''/home/user/src/planner.cpp''" 42 "''value out of range''"]
  show ?thesis
    by (auto simp: file_after_def before stamps line)
qed

text \<open>
  C1 as stated fails without the two added conditions. With the summary file not openable,
  the logger of \<open>Planner\<close> opens and accepts \<open>WARN\<close>, its file (11) receives the record, and the
  summary file (10) stays empty. With the module named \<open>ALL_LOGS_SUMMARY\<close>, the module's path is
  the summary path, both loggers are open on the summary file, and it grows by two records;
  the same happens for the module \<^verbatim>\<open>./ALL_LOGS_SUMMARY\<close>, whose path is another name of the
  summary file.
\<close>

theorem writeLog_appends_to_both_counterexample:
  "fst (getLogger ''Planner'' DEBUG (getInstance (summary_locked_world, None)))
     = Some \<lparr>m_log_file_path = ''/tmp/two_stage_int_logs/Planner.log'', log_file_is_open = True,
              log_file_node = 11, m_min_level = DEBUG, object_id = 1\<rparr>
   \<and> file_after 11 (writeLog ''Planner'' WARN ''planner.cpp'' 42 ''value out of range''
       (summary_locked_world, None))
     = Some (''[2023-12-07 14:30:25.123] [WARN] [Planner] planner.cpp:42 - value out of range''
             @ [newline])
   \<and> file_after 10 (writeLog ''Planner'' WARN ''planner.cpp'' 42 ''value out of range''
       (summary_locked_world, None)) = Some []
   \<and> file_after 10 (writeLog ''ALL_LOGS_SUMMARY'' WARN ''planner.cpp'' 42 ''value out of range''
       (example_world, None))
     = Some (''[2023-12-07 14:30:25.123] [WARN] [ALL_LOGS_SUMMARY] planner.cpp:42 - value out of range''
       @ [newline]
       @ ''[2023-12-07 14:30:25.123] [WARN] [ALL_LOGS_SUMMARY] planner.cpp:42 - value out of range''
       @ [newline])
   \<and> file_after 10 (writeLog ''./ALL_LOGS_SUMMARY'' WARN ''planner.cpp'' 42 ''value out of range''
       (example_world, None))
     = Some (''[2023-12-07 14:30:25.123] [WARN] [./ALL_LOGS_SUMMARY] planner.cpp:42 - value out of range''
       @ [newline]
       @ ''[2023-12-07 14:30:25.123] [WARN] [./ALL_LOGS_SUMMARY] planner.cpp:42 - value out of range''
       @ [newline])"
  by code_simp

subsection \<open>C2: a record below the module's minimum goes to the summary file only\<close>




subsection \<open>C3: one logger per module name\<close>

text \<open>
  C3, as amended. In every reachable state, once a call \<open>getLogger module_name level1\<close> has
  returned a logger, every later call \<open>getLogger module_name level2\<close>, with any minimum level and
  after any further events, returns that same logger (the same object), whose file is
  \<open>base/module_name.log\<close>.
\<close>

theorem getLogger_reuses_instance:
  assumes reach: "getInstance (run evs (w0, None)) = (w, manager)"
      and first: "getLogger module_name level1 (w, manager) = (Some l, w1, manager1)"
  shows "fst (getLogger module_name level2 (getInstance (run later (w1, Some manager1)))) = Some l
       \<and> m_log_file_path l = m_base_log_dir manager @ ''/'' @ module_name @ ''.log''"
proof -
  have ok: "registry_ok (w, manager)"
    using reachable_registry_ok [of evs w0] reach by simp
  note facts = getLogger_Some_ok [OF ok first]
  obtain w2 m2 where r: "run later (w1, Some manager1) = (w2, Some m2)"
    and g: "registry_grows (w1, manager1) (w2, m2)"
    by (rule run_from_instance)
  from g facts have "m_loggers m2 module_name = Some l"
    by (simp add: registry_grows_def)
  then have "fst (getLogger module_name level2 (w2, m2)) = Some l"
    by (simp add: getLogger_found)
  with r facts show ?thesis
    by (simp add: module_log_path_def)
qed

text \<open>
  The statement at work: \<open>Planner\<close> fetched with \<open>WARN\<close>, then another module fetched and the
  surroundings changed, then \<open>Planner\<close> fetched with \<open>ERROR\<close>.
\<close>

theorem getLogger_reuses_instance_witness:
  "fst (getLogger ''Planner'' ERROR
       (getInstance (run [GetLogger ''CONTROLLER'' DEBUG, unlock]
          (exec (GetLogger ''Planner'' WARN) (example_world, None)))))
     = Some \<lparr>m_log_file_path = ''/tmp/two_stage_int_logs/Planner.log'',
              log_file_is_open = True, log_file_node = 11,
              m_min_level = WARN, object_id = 1\<rparr>"
proof -
  let ?W = "fst (getInstance (example_world, None))"
  let ?M = "snd (getInstance (example_world, None))"
  let ?L = "\<lparr>m_log_file_path = ''/tmp/two_stage_int_logs/Planner.log'',
             log_file_is_open = True, log_file_node = 11,
             m_min_level = WARN, object_id = 1\<rparr>"
  let ?G = "getLogger ''Planner'' WARN (?W, ?M)"
  have reach: "getInstance (run [] (example_world, None)) = (?W, ?M)"
    by simp
  have "fst (getLogger ''Planner'' WARN (getInstance (example_world, None))) = Some ?L"
    by code_simp
  then have first: "?G = (Some ?L, fst (snd ?G), snd (snd ?G))"
    by (intro getLogger_collapse) simp
  have after: "exec (GetLogger ''Planner'' WARN) (example_world, None)
      = (fst (snd ?G), Some (snd (snd ?G)))"
    by (simp add: case_prod_unfold)
  from getLogger_reuses_instance [OF reach first, of ERROR "[GetLogger ''CONTROLLER'' DEBUG, unlock]"]
  show ?thesis
    unfolding after by simp
qed

text \<open>
  C3 as stated fails when the first open fails. In \<open>locked_world\<close> the first call returns the
  null pointer; after the directory has become writable the second call returns a logger, the
  third object constructed (identity 2). And two calls that both fail construct one
  \<open>FileLogger\<close> each: with the summary logger, three objects.
\<close>

theorem getLogger_reuses_instance_counterexample:
  "fst (getLogger ''Planner'' DEBUG (getInstance (locked_world, None))) = None
   \<and> fst (getLogger ''Planner'' DEBUG
       (getInstance (run [GetLogger ''Planner'' DEBUG, unlock] (locked_world, None))))
     = Some \<lparr>m_log_file_path = ''/tmp/two_stage_int_logs/Planner.log'',
              log_file_is_open = True, log_file_node = 11,
              m_min_level = DEBUG, object_id = 2\<rparr>
   \<and> constructed (fst (run [GetLogger ''Planner'' DEBUG, GetLogger ''Planner'' DEBUG]
       (locked_world, None))) = 3"
  by code_simp

subsection \<open>C4: writeLog returns, whatever opened\<close>

text \<open>
  C4, as amended. In every state of the process, reachable or not, and whichever of the two
  opens failed, \<open>writeLog\<close> returns to its caller: its result is never an error. In every
  reachable state, when the module's logger cannot be had (the module is not registered and
  its file does not open), \<open>writeLog\<close> leaves the registry as it is, and the record reaches the
  summary file, as exactly one formatted record, if the summary logger is open; if the
  summary logger is not open, no file changes.
\<close>

theorem writeLog_returns_normally:
  assumes reach: "getInstance (run evs (w0, None)) = (w, manager)"
      and failed: "fst (getLogger module DEBUG (w, manager)) = None"
  shows "(\<exists>p'. writeLog any_module any_level any_file any_line any_message p = Inr p')
       \<and> (\<exists>sl w'. m_summary_logger manager = Some sl
             \<and> m_log_file_path sl = m_base_log_dir manager @ ''/ALL_LOGS_SUMMARY.log''
             \<and> writeLog module level file line message (run evs (w0, None))
                 = Inr (w', Some manager)
             \<and> files w' =
                 (if log_file_is_open sl
                  then (files w)
                         (log_file_node sl := files w (log_file_node sl)
                            @ log_record (fst (getCurrentTimestamp w)) (logLevelToString level)
                                module (getFileName file) (show_int line) message)
                  else files w))"
proof -
  have ok: "registry_ok (w, manager)"
    using reachable_registry_ok [of evs w0] reach by simp
  then obtain sl where summary: "m_summary_logger manager = Some sl"
    and sl: "m_min_level sl = DEBUG"
      "m_log_file_path sl = summary_log_path (m_base_log_dir manager)"
    by (rule reachable_summary)
  let ?path = "module_log_path (m_base_log_dir manager) module"
  let ?w1 = "w\<lparr>constructed := Suc (constructed w),
               cerr := cerr w @ ''Error: Cannot open log file: '' @ ?path @ [newline]\<rparr>"
  let ?w3 = "log sl level module file line message ?w1"
  from failed have none: "m_loggers manager module = None" and closed: "\<not> can_open w ?path"
    by (simp_all add: getLogger_None_iff)
  have g: "getLogger module DEBUG (getInstance (run evs (w0, None))) = (None, ?w1, manager)"
    using reach getLogger_failed [OF none closed] by simp
  have result: "writeLog module level file line message (run evs (w0, None))
      = Inr (?w3, Some manager)"
    using summary by (simp add: writeLog_steps [OF g])
  have t1: "fst (getCurrentTimestamp ?w1) = fst (getCurrentTimestamp w)"
    by (intro getCurrentTimestamp_depends) simp_all
  have "files ?w3 =
      (if log_file_is_open sl
       then (files w)
              (log_file_node sl := files w (log_file_node sl)
                 @ log_record (fst (getCurrentTimestamp w)) (logLevelToString level) module
                     (getFileName file) (show_int line) message)
       else files w)"
    unfolding log_files t1 by (simp add: sl)
  with summary sl result
  have "\<exists>sl w'. m_summary_logger manager = Some sl
             \<and> m_log_file_path sl = m_base_log_dir manager @ ''/ALL_LOGS_SUMMARY.log''
             \<and> writeLog module level file line message (run evs (w0, None))
                 = Inr (w', Some manager)
             \<and> files w' =
                 (if log_file_is_open sl
                  then (files w)
                         (log_file_node sl := files w (log_file_node sl)
                            @ log_record (fst (getCurrentTimestamp w)) (logLevelToString level)
                                module (getFileName file) (show_int line) message)
                  else files w)"
    by (simp add: summary_log_path_def)
  with writeLog_returns [of any_module any_level any_file any_line any_message p]
  show ?thesis by (intro conjI)
qed

text \<open>
  The statement at work: only the summary file can be opened; the call for \<open>Planner\<close> returns
  and the record reaches the summary file. And the call returns in \<open>locked_world\<close> too.
\<close>

theorem writeLog_returns_normally_witness:
  "fst (getLogger ''Planner'' DEBUG (getInstance (modules_locked_world, None))) = None
   \<and> file_after 10 (writeLog ''Planner'' WARN ''/home/user/src/planner.cpp'' 42
       ''value out of range'' (modules_locked_world, None))
     = Some (''[2023-12-07 14:30:25.123] [WARN] [Planner] planner.cpp:42 - value out of range''
             @ [newline])
   \<and> (\<exists>p'. writeLog ''Planner'' WARN ''/home/user/src/planner.cpp'' 42 ''value out of range''
          (locked_world, None) = Inr p')"
proof -
  let ?W = "fst (getInstance (modules_locked_world, None))"
  let ?M = "snd (getInstance (modules_locked_world, None))"
  let ?S = "\<lparr>m_log_file_path = ''/tmp/two_stage_int_logs/ALL_LOGS_SUMMARY.log'',
             log_file_is_open = True, log_file_node = 10, m_min_level = DEBUG, object_id = 0\<rparr>"
  have reach: "getInstance (run [] (modules_locked_world, None)) = (?W, ?M)"
    by simp
  have failed: "fst (getLogger ''Planner'' DEBUG (getInstance (modules_locked_world, None))) = None"
    by code_simp
  then have failed': "fst (getLogger ''Planner'' DEBUG (?W, ?M)) = None"
    by simp
  have summary: "m_summary_logger ?M = Some ?S"
    by code_simp
  have before: "files ?W 10 = []"
    by code_simp
  have stamp: "fst (getCurrentTimestamp ?W) = ''2023-12-07 14:30:25.123''"
    by code_simp
  have line: "log_record ''2023-12-07 14:30:25.123'' ''WARN'' ''Planner''
      (getFileName ''/home/user/src/planner.cpp'') (show_int 42) ''value out of range''
    = ''[2023-12-07 14:30:25.123] [WARN] [Planner] planner.cpp:42 - value out of range'' @ [newline]"
    by code_simp
  from writeLog_returns_normally [OF reach failed',
      of "''Planner''" WARN "''/home/user/src/planner.cpp''" 42 "''value out of range''"
         "(locked_world, None)" WARN "''/home/user/src/planner.cpp''" 42 "''value out of range''"]
  show ?thesis
    using failed by (auto simp: file_after_def summary before stamp line)
qed

text \<open>
  C4 as stated fails when the summary logger did not open either: in \<open>locked_world\<close> the open
  for \<open>Planner\<close> fails, the call returns, and the summary file (10) stays empty.
\<close>

theorem writeLog_returns_normally_counterexample:
  "fst (getLogger ''Planner'' DEBUG (getInstance (locked_world, None))) = None
   \<and> file_after 10 (writeLog ''Planner'' WARN ''planner.cpp'' 42 ''value out of range''
       (locked_world, None)) = Some []"
  by code_simp

subsection \<open>C5: when getLogger returns the null pointer\<close>

text \<open>
  C5, as amended. In every reachable state, \<open>getLogger module_name min_level\<close> returns the
  null pointer if and only if the module is not registered and opening
  \<open>base/module_name.log\<close> fails. Every logger it returns is open, has that path, and is
  registered under the module name afterwards; its minimum level is \<open>min_level\<close> when this call
  created it, and the level it was created with when it was registered before.
\<close>

theorem getLogger_null_iff_open_failed:
  assumes reach: "getInstance (run evs (w0, None)) = (w, this)"
  shows "(fst (getLogger module_name min_level (w, this)) = None \<longleftrightarrow>
            m_loggers this module_name = None
            \<and> \<not> can_open w (m_base_log_dir this @ ''/'' @ module_name @ ''.log''))
       \<and> (\<forall>l. fst (getLogger module_name min_level (w, this)) = Some l \<longrightarrow>
            log_file_is_open l
            \<and> m_log_file_path l = m_base_log_dir this @ ''/'' @ module_name @ ''.log''
            \<and> m_loggers (snd (snd (getLogger module_name min_level (w, this)))) module_name = Some l
            \<and> m_min_level l =
                (case m_loggers this module_name of None \<Rightarrow> min_level | Some it \<Rightarrow> m_min_level it))"
proof -
  have ok: "registry_ok (w, this)"
    using reachable_registry_ok [of evs w0] reach by simp
  have "log_file_is_open l
      \<and> m_log_file_path l = m_base_log_dir this @ ''/'' @ module_name @ ''.log''
      \<and> m_loggers (snd (snd (getLogger module_name min_level (w, this)))) module_name = Some l
      \<and> m_min_level l =
          (case m_loggers this module_name of None \<Rightarrow> min_level | Some it \<Rightarrow> m_min_level it)"
    if "fst (getLogger module_name min_level (w, this)) = Some l" for l
  proof -
    obtain r w1 this1 where "getLogger module_name min_level (w, this) = (r, w1, this1)"
      by (cases "getLogger module_name min_level (w, this)")
    with that have g: "getLogger module_name min_level (w, this) = (Some l, w1, this1)"
      by simp
    from getLogger_Some_ok [OF ok g] show ?thesis
      by (simp add: g module_log_path_def)
  qed
  then show ?thesis
    using getLogger_None_iff
    by (simp add: module_log_path_def)
qed

text \<open>The statement at work: \<open>Planner\<close> created with minimum \<open>WARN\<close>.\<close>

theorem getLogger_null_iff_open_failed_witness:
  "fst (getLogger ''Planner'' WARN (getInstance (example_world, None)))
     = Some \<lparr>m_log_file_path = ''/tmp/two_stage_int_logs/Planner.log'',
              log_file_is_open = True, log_file_node = 11,
              m_min_level = WARN, object_id = 1\<rparr>
   \<and> m_loggers (snd (snd (getLogger ''Planner'' WARN (getInstance (example_world, None)))))
       ''Planner''
     = Some \<lparr>m_log_file_path = ''/tmp/two_stage_int_logs/Planner.log'',
              log_file_is_open = True, log_file_node = 11,
              m_min_level = WARN, object_id = 1\<rparr>"
proof -
  let ?W = "fst (getInstance (example_world, None))"
  let ?M = "snd (getInstance (example_world, None))"
  have reach: "getInstance (run [] (example_world, None)) = (?W, ?M)"
    by simp
  have found: "fst (getLogger ''Planner'' WARN (getInstance (example_world, None)))
     = Some \<lparr>m_log_file_path = ''/tmp/two_stage_int_logs/Planner.log'',
              log_file_is_open = True, log_file_node = 11,
              m_min_level = WARN, object_id = 1\<rparr>"
    by code_simp
  from getLogger_null_iff_open_failed [OF reach, of "''Planner''" WARN] found
  show ?thesis
    by simp
qed

text \<open>
  C5 as stated fails for a module that is registered already: \<open>CUSTOM_MODULE\<close> created with
  \<open>WARN\<close> and fetched again with \<open>ERROR\<close> comes back with minimum \<open>WARN\<close>.
\<close>

theorem getLogger_given_level_counterexample:
  "fst (getLogger ''CUSTOM_MODULE'' ERROR
       (getInstance (run [GetLogger ''CUSTOM_MODULE'' WARN] (example_world, None))))
     = Some \<lparr>m_log_file_path = ''/tmp/two_stage_int_logs/CUSTOM_MODULE.log'',
              log_file_is_open = True, log_file_node = 12,
             m_min_level = WARN, object_id = 1\<rparr>"
  by code_simp

subsection \<open>C6: the layout of a line\<close>

text \<open>
  C6. For an open logger and a level that is not below its minimum, \<open>log\<close> changes only the
  file that the logger is open on and appends to it exactly
  \<open>[timestamp] [LEVEL] [module] basename:line - message\<close> and a newline, where \<open>LEVEL\<close> is
  \<open>DEBUG\<close>, \<open>INFO\<close>, \<open>WARN\<close> or \<open>ERROR\<close> after the level, the timestamp is the one of the
  current clock reading, and the line number is written in decimal.
\<close>

theorem log_line_layout:
  assumes "log_file_is_open logger" and "\<not> level_less level (m_min_level logger)"
  shows "files (log logger level module file line message w) =
     (files w)(log_file_node logger := files w (log_file_node logger)
        @ ''['' @ fst (getCurrentTimestamp w) @ ''] [''
        @ (case level of DEBUG \<Rightarrow> ''DEBUG'' | INFO \<Rightarrow> ''INFO'' | WARN \<Rightarrow> ''WARN'' | ERROR \<Rightarrow> ''ERROR'')
        @ ''] ['' @ module @ ''] '' @ getFileName file @ '':'' @ show_int line @ '' - '' @ message
        @ [newline])"
  using assms by (simp add: log_files log_record_def logLevelToString_cases)

text \<open>The statement at work: a \<open>WARN\<close> record on a logger of minimum \<open>INFO\<close>.\<close>

theorem log_line_layout_witness:
  "files (log \<lparr>m_log_file_path = ''/tmp/two_stage_int_logs/Planner.log'', log_file_is_open = True,
               log_file_node = 11,
               m_min_level = INFO, object_id = 1\<rparr>
            WARN ''Planner'' ''/home/user/src/planner.cpp'' 42 ''value out of range'' example_world)
     11
   = ''[2023-12-07 14:30:25.123] [WARN] [Planner] planner.cpp:42 - value out of range'' @ [newline]"
proof -
  let ?L = "\<lparr>m_log_file_path = ''/tmp/two_stage_int_logs/Planner.log'', log_file_is_open = True,
               log_file_node = 11,
             m_min_level = INFO, object_id = 1\<rparr>"
  have is_open: "log_file_is_open ?L"
    by simp
  have accepted: "\<not> level_less WARN (m_min_level ?L)"
    by (simp add: level_less_def)
  have before: "files example_world 11 = []"
    by code_simp
  have stamp: "fst (getCurrentTimestamp example_world) = ''2023-12-07 14:30:25.123''"
    by code_simp
  have name: "getFileName ''/home/user/src/planner.cpp'' = ''planner.cpp''"
    by code_simp
  have number: "show_int 42 = ''42''"
    by code_simp
  from log_line_layout [OF is_open accepted, of "''Planner''" "''/home/user/src/planner.cpp''" 42
      "''value out of range''" example_world]
  show ?thesis
    by (simp add: before stamp name number)
qed

subsection \<open>C7: the base directory\<close>

text \<open>
  C7. When the registry is constructed, its base directory is the value of \<^verbatim>\<open>LOG_DIR\<close> if
  that variable is set; otherwise the value of \<^verbatim>\<open>ROS_WORKSPACE\<close> followed by
  \<^verbatim>\<open>/logs/current\<close> if that one is set; otherwise \<^verbatim>\<open>/tmp/two_stage_int_logs\<close>. After
  any events, changes of the environment variables among them, the base directory is still
  the one of the construction.
\<close>

theorem base_directory_precedence:
  "m_base_log_dir (snd (getInstance (w, None))) =
     (case environ w ''LOG_DIR'' of
        Some log_dir \<Rightarrow> log_dir
      | None \<Rightarrow>
          (case environ w ''ROS_WORKSPACE'' of
             Some workspace \<Rightarrow> workspace @ ''/logs/current''
           | None \<Rightarrow> ''/tmp/two_stage_int_logs''))
   \<and> m_base_log_dir (snd (getInstance
         (run evs (fst (getInstance (w, None)), Some (snd (getInstance (w, None)))))))
       = m_base_log_dir (snd (getInstance (w, None)))"
proof -
  have "m_base_log_dir (snd (getInstance (w, None))) =
     (case environ w ''LOG_DIR'' of
        Some log_dir \<Rightarrow> log_dir
      | None \<Rightarrow>
          (case environ w ''ROS_WORKSPACE'' of
             Some workspace \<Rightarrow> workspace @ ''/logs/current''
           | None \<Rightarrow> ''/tmp/two_stage_int_logs''))"
    by (simp add: getInstance_def LogManager_new_def initializeLogDirectory_def Let_def
        split: prod.splits option.splits)
  moreover obtain w2 m2
    where "run evs (fst (getInstance (w, None)), Some (snd (getInstance (w, None)))) = (w2, Some m2)"
      and "registry_grows (fst (getInstance (w, None)), snd (getInstance (w, None))) (w2, m2)"
    by (rule run_from_instance)
  then have "m_base_log_dir (snd (getInstance
         (run evs (fst (getInstance (w, None)), Some (snd (getInstance (w, None)))))))
       = m_base_log_dir (snd (getInstance (w, None)))"
    by (simp add: registry_grows_def case_prod_unfold)
  ultimately show ?thesis by (intro conjI)
qed

text \<open>
  The statement at work: only the workspace variable set; later the variables are unset and
  a logger is fetched.
\<close>

theorem base_directory_precedence_witness:
  "m_base_log_dir (snd (getInstance (workspace_world, None))) = ''/home/user/catkin_ws/logs/current''
   \<and> m_base_log_dir (snd (getInstance
         (run [unlock, GetLogger ''Planner'' DEBUG]
            (fst (getInstance (workspace_world, None)),
             Some (snd (getInstance (workspace_world, None)))))))
     = ''/home/user/catkin_ws/logs/current''"
proof -
  have "environ workspace_world ''LOG_DIR'' = None"
    and "environ workspace_world ''ROS_WORKSPACE'' = Some ''/home/user/catkin_ws''"
    by (simp_all add: workspace_world_def)
  with base_directory_precedence [of workspace_world "[unlock, GetLogger ''Planner'' DEBUG]"]
  show ?thesis
    by simp
qed

subsection \<open>C8: the basename\<close>

text \<open>
  C8. The basename is the part of the path after its last separator (\<open>/\<close> or \<open>\\<close>): a path
  holding a separator splits as \<open>pre @ [sep] @ getFileName path\<close> with no separator in the
  basename, and a path holding none is its own basename.
\<close>

theorem getFileName_after_last_separator:
  "(if \<exists>c \<in> set path. is_separator c
    then \<exists>pre sep. path = pre @ [sep] @ getFileName path \<and> is_separator sep
           \<and> \<not> (\<exists>c \<in> set (getFileName path). is_separator c)
    else getFileName path = path)"
proof (cases "find_last_of path [slash, backslash]")
  case None
  then have "set path \<inter> {slash, backslash} = {}"
    using find_last_of_None [of path "[slash, backslash]"] by simp
  then have "\<not> (\<exists>c \<in> set path. is_separator c)"
    by (auto simp: is_separator_def)
  with None show ?thesis by (simp add: getFileName_def)
next
  case (Some i)
  from find_last_of_Some [OF Some]
  have i: "i < length path" and sep: "path ! i \<in> {slash, backslash}"
    and rest: "set (drop (Suc i) path) \<inter> {slash, backslash} = {}"
    by simp_all
  have name: "getFileName path = drop (Suc i) path"
    using Some by (simp add: getFileName_def)
  have "path = take i path @ [path ! i] @ drop (Suc i) path"
    using i by (simp add: id_take_nth_drop)
  moreover have "is_separator (path ! i)"
    using sep by (auto simp: is_separator_def)
  moreover have "\<not> (\<exists>c \<in> set (drop (Suc i) path). is_separator c)"
    using rest by (auto simp: is_separator_def)
  moreover have "\<exists>c \<in> set path. is_separator c"
    using i \<open>is_separator (path ! i)\<close> nth_mem by blast
  ultimately show ?thesis
    unfolding name by (metis (full_types))
qed

text \<open>The statement at work on a Unix path.\<close>

theorem getFileName_after_last_separator_witness:
  "getFileName ''/home/user/src/planner.cpp'' = ''planner.cpp''
   \<and> (\<exists>pre sep. ''/home/user/src/planner.cpp'' = pre @ [sep] @ ''planner.cpp'' \<and> is_separator sep)"
proof -
  have e: "getFileName ''/home/user/src/planner.cpp'' = ''planner.cpp''"
    by (simp add: getFileName_def slash_def backslash_def)
  have s: "\<exists>c \<in> set ''/home/user/src/planner.cpp''. is_separator c"
    by (simp add: is_separator_def slash_def backslash_def)
  from getFileName_after_last_separator [of "''/home/user/src/planner.cpp''"] s
  show ?thesis unfolding e by auto
qed

subsection \<open>C9: the timestamp\<close>

text \<open>
  C9. The clock of the platform does not run before the epoch, so a reading that the code
  receives is a count of nanoseconds that is not negative, and \<^verbatim>\<open>localtime\<close> gives for its
  whole seconds a calendar date and time of day: fields in the ranges of \<^verbatim>\<open>struct tm\<close> and
  a year of four digits (1970 to 2262 are the years that such a count of 64 bits reaches).
  For every such reading the timestamp is
  \<open>YYYY-MM-DD HH:MM:SS.mmm\<close>: 23 characters, each field the zero-padded decimal numeral of
  its width (\<open>decimal_field\<close>, whose characters are digits), the calendar fields those of
  \<^verbatim>\<open>localtime\<close> at the whole seconds of the reading, and \<open>mmm\<close> the whole milliseconds of the
  sub-second part, rounded down.
\<close>

theorem timestamp_form:
  assumes "0 \<le> clock w (reads w)"
      and "calendar_fields_ok (local_time w (clock w (reads w) div 1000000000))"
  shows "fst (getCurrentTimestamp w) =
     (let now = clock w (reads w); t = local_time w (now div 1000000000)
      in decimal_field 4 (nat (tm_year t + 1900)) @ ''-'' @ decimal_field 2 (nat (tm_mon t + 1))
         @ ''-'' @ decimal_field 2 (nat (tm_mday t)) @ '' '' @ decimal_field 2 (nat (tm_hour t))
         @ '':'' @ decimal_field 2 (nat (tm_min t)) @ '':'' @ decimal_field 2 (nat (tm_sec t))
         @ ''.'' @ decimal_field 3 (nat (now mod 1000000000 div 1000000)))
     \<and> length (fst (getCurrentTimestamp w)) = 23"
proof -
  let ?now = "clock w (reads w)"
  let ?t = "local_time w (?now div 1000000000)"
  from assms(2) have
    "show_int (tm_year ?t + 1900) = decimal_field 4 (nat (tm_year ?t + 1900))"
    "two_digits (tm_mon ?t + 1) = decimal_field 2 (nat (tm_mon ?t + 1))"
    "two_digits (tm_mday ?t) = decimal_field 2 (nat (tm_mday ?t))"
    "two_digits (tm_hour ?t) = decimal_field 2 (nat (tm_hour ?t))"
    "two_digits (tm_min ?t) = decimal_field 2 (nat (tm_min ?t))"
    "two_digits (tm_sec ?t) = decimal_field 2 (nat (tm_sec ?t))"
    by (simp_all add: calendar_fields_ok_def year_field two_digits_field)
  then have date: "put_time ?t =
      decimal_field 4 (nat (tm_year ?t + 1900)) @ ''-'' @ decimal_field 2 (nat (tm_mon ?t + 1))
      @ ''-'' @ decimal_field 2 (nat (tm_mday ?t)) @ '' '' @ decimal_field 2 (nat (tm_hour ?t))
      @ '':'' @ decimal_field 2 (nat (tm_min ?t)) @ '':'' @ decimal_field 2 (nat (tm_sec ?t))"
    by (simp add: put_time_def)
  have ms: "setw_setfill 3 CHR ''0'' (show_int (duration_cast_milliseconds ?now smod 1000))
      = decimal_field 3 (nat (?now mod 1000000000 div 1000000))"
    using milliseconds_range [of ?now]
    by (simp add: milliseconds_nonneg [OF assms(1)] three_digits_field)
  have "fst (getCurrentTimestamp w) =
      put_time ?t @ ''.'' @ setw_setfill 3 CHR ''0'' (show_int (duration_cast_milliseconds ?now smod 1000))"
    by (simp add: getCurrentTimestamp_def system_clock_now_def Let_def to_time_t_nonneg [OF assms(1)])
  then have eq: "fst (getCurrentTimestamp w) =
      decimal_field 4 (nat (tm_year ?t + 1900)) @ ''-'' @ decimal_field 2 (nat (tm_mon ?t + 1))
      @ ''-'' @ decimal_field 2 (nat (tm_mday ?t)) @ '' '' @ decimal_field 2 (nat (tm_hour ?t))
      @ '':'' @ decimal_field 2 (nat (tm_min ?t)) @ '':'' @ decimal_field 2 (nat (tm_sec ?t))
      @ ''.'' @ decimal_field 3 (nat (?now mod 1000000000 div 1000000))"
    by (simp only: date ms append_assoc)
  have "length (fst (getCurrentTimestamp w)) = 23"
    unfolding eq by (simp add: decimal_field_length)
  with eq show ?thesis by (simp only: Let_def)
qed

text \<open>
  The statement at work: 123.999999 milliseconds into the second give \<open>.123\<close>, not \<open>.124\<close>.
\<close>

theorem timestamp_form_witness:
  "fst (getCurrentTimestamp example_world) = ''2023-12-07 14:30:25.123''"
proof -
  have c: "clock example_world (reads example_world) = 1701959425123999999"
    and l: "local_time example_world 1701959425 = example_tm"
    by (simp_all add: example_world_def)
  have n: "(0::int) \<le> 1701959425123999999" by simp
  have d: "(1701959425123999999::int) div 1000000000 = 1701959425" by simp
  have "calendar_fields_ok example_tm" by (simp add: calendar_fields_ok_def example_tm_def)
  with timestamp_form [of example_world] show ?thesis
    by (simp add: c d l example_tm_def decimal_field_4 decimal_field_3 decimal_field_2
        digit_char_def Let_def)
qed

subsection \<open>C10: a failed open is not registered and is tried again\<close>

text \<open>
  C10. In every reachable state, when the module is not registered and its file does not
  open, \<open>getLogger\<close> returns the null pointer, leaves the registry unchanged and has
  constructed (and dropped) one logger. In any later state in which the module is still not
  registered, \<open>getLogger\<close> tries the open again: if it succeeds, the call registers and returns a
  logger constructed by this very call, whose identity is greater than that of every logger
  constructed before, the failed ones among them; if it fails, the call returns the null
  pointer again.
\<close>

theorem failed_open_is_retried:
  assumes reach: "getInstance (run evs (w0, None)) = (w, manager)"
      and unregistered: "m_loggers manager module_name = None"
      and fails: "\<not> can_open w (m_base_log_dir manager @ ''/'' @ module_name @ ''.log'')"
      and later: "getInstance (run later (exec (GetLogger module_name level1) (w, Some manager))) = (w2, manager2)"
      and still: "m_loggers manager2 module_name = None"
  shows "getLogger module_name level1 (w, manager) =
           (None,
            w\<lparr>constructed := Suc (constructed w),
              cerr := cerr w @ ''Error: Cannot open log file: ''
                      @ m_base_log_dir manager @ ''/'' @ module_name @ ''.log'' @ [newline]\<rparr>,
            manager)
       \<and> constructed w < constructed w2
       \<and> getLogger module_name level2 (w2, manager2) =
           (if can_open w2 (m_base_log_dir manager @ ''/'' @ module_name @ ''.log'')
            then (Some \<lparr>m_log_file_path = m_base_log_dir manager @ ''/'' @ module_name @ ''.log'',
                         log_file_is_open = True,
                         log_file_node =
                           inode w2 (m_base_log_dir manager @ ''/'' @ module_name @ ''.log''),
                         m_min_level = level2, object_id = constructed w2\<rparr>,
                  w2\<lparr>constructed := Suc (constructed w2)\<rparr>,
                  manager2\<lparr>m_loggers := (m_loggers manager2)(module_name \<mapsto>
                     \<lparr>m_log_file_path = m_base_log_dir manager @ ''/'' @ module_name @ ''.log'',
                      log_file_is_open = True,
                      log_file_node =
                        inode w2 (m_base_log_dir manager @ ''/'' @ module_name @ ''.log''),
                      m_min_level = level2, object_id = constructed w2\<rparr>)\<rparr>)
            else (None,
                  w2\<lparr>constructed := Suc (constructed w2),
                     cerr := cerr w2 @ ''Error: Cannot open log file: ''
                             @ m_base_log_dir manager @ ''/'' @ module_name @ ''.log'' @ [newline]\<rparr>,
                  manager2))"
proof -
  let ?path = "m_base_log_dir manager @ ''/'' @ module_name @ ''.log''"
  let ?w1 = "w\<lparr>constructed := Suc (constructed w),
              cerr := cerr w @ ''Error: Cannot open log file: '' @ ?path @ [newline]\<rparr>"
  have path: "module_log_path (m_base_log_dir manager) module_name = ?path"
    by (simp add: module_log_path_def)
  have first: "getLogger module_name level1 (w, manager) = (None, ?w1, manager)"
    using getLogger_failed [OF unregistered, of w level1] fails by (simp add: path)
  obtain w2' m2' where r: "run later (?w1, Some manager) = (w2', Some m2')"
    and g: "registry_grows (?w1, manager) (w2', m2')"
    by (rule run_from_instance)
  from later first r have eq: "w2' = w2" "m2' = manager2" by simp_all
  from g eq have base: "m_base_log_dir manager2 = m_base_log_dir manager"
    and count: "constructed w < constructed w2"
    by (simp_all add: registry_grows_def)
  have path2: "module_log_path (m_base_log_dir manager2) module_name = ?path"
    by (simp add: module_log_path_def base)
  have "getLogger module_name level2 (w2, manager2) =
           (if can_open w2 ?path
            then (Some \<lparr>m_log_file_path = ?path,
                         log_file_is_open = True, log_file_node = inode w2 ?path,
             m_min_level = level2, object_id = constructed w2\<rparr>,
                  w2\<lparr>constructed := Suc (constructed w2)\<rparr>,
                  manager2\<lparr>m_loggers := (m_loggers manager2)(module_name \<mapsto>
                     \<lparr>m_log_file_path = ?path,
                      log_file_is_open = True, log_file_node = inode w2 ?path,
                      m_min_level = level2, object_id = constructed w2\<rparr>)\<rparr>)
            else (None,
                  w2\<lparr>constructed := Suc (constructed w2),
                     cerr := cerr w2 @ ''Error: Cannot open log file: '' @ ?path @ [newline]\<rparr>,
                  manager2))"
    using getLogger_created [OF still, of w2 level2] getLogger_failed [OF still, of w2 level2]
    by (simp add: path2)
  with first count show ?thesis by simp
qed

text \<open>
  The statement at work: the open for \<open>Planner\<close> fails in \<open>locked_world\<close>; after the directory
  has become writable the next call creates the logger, the third object constructed.
\<close>

theorem failed_open_is_retried_witness:
  "fst (getLogger ''Planner'' DEBUG (getInstance (locked_world, None))) = None
   \<and> fst (getLogger ''Planner'' WARN
       (getInstance (run [unlock] (exec (GetLogger ''Planner'' DEBUG) (locked_world, None)))))
     = Some \<lparr>m_log_file_path = ''/tmp/two_stage_int_logs/Planner.log'',
              log_file_is_open = True, log_file_node = 11,
              m_min_level = WARN, object_id = 2\<rparr>"
proof -
  let ?W = "fst (getInstance (locked_world, None))"
  let ?M = "snd (getInstance (locked_world, None))"
  let ?P2 = "run [unlock] (exec (GetLogger ''Planner'' DEBUG) (?W, Some ?M))"
  let ?W2 = "fst (getInstance ?P2)"
  let ?M2 = "snd (getInstance ?P2)"
  have reach: "getInstance (run [] (locked_world, None)) = (?W, ?M)"
    by simp
  have unregistered: "m_loggers ?M ''Planner'' = None"
    by code_simp
  have base: "m_base_log_dir ?M = ''/tmp/two_stage_int_logs''"
    by code_simp
  have fails: "\<not> can_open ?W (m_base_log_dir ?M @ ''/'' @ ''Planner'' @ ''.log'')"
    by code_simp
  have later: "getInstance ?P2 = (?W2, ?M2)"
    by simp
  have still: "m_loggers ?M2 ''Planner'' = None"
    by code_simp
  have same: "exec (GetLogger ''Planner'' DEBUG) (?W, Some ?M)
      = exec (GetLogger ''Planner'' DEBUG) (locked_world, None)"
    by (simp add: getInstance_def)
  have now_open: "can_open ?W2 ''/tmp/two_stage_int_logs/Planner.log''"
    by code_simp
  have node: "inode ?W2 ''/tmp/two_stage_int_logs/Planner.log'' = 11"
    by code_simp
  have count: "constructed ?W2 = 2"
    by code_simp
  from failed_open_is_retried [OF reach unregistered fails later still, of WARN]
  show ?thesis
    using now_open node count unfolding same by (simp add: base del: run.simps exec.simps)
qed

end
